theory Spec2Isabelle
  imports Complex_Main "HOL-Library.Word"
begin

unbundle bit_operations_syntax

section \<open>Runtime values: bytes, buffers, thrown errors\<close>

text \<open>
  A \<open>Buffer\<close> is a list of bytes. Every JavaScript number that the reader uses as an
  index, a length or a count is an integer and is modelled as \<open>int\<close>. A thrown
  exception is the \<open>Inl\<close> branch of a sum; the constructors name the \<open>throw\<close>
  statements of \<open>sas7bdat.js\<close> (by their message) and the runtime's own exceptions.
\<close>

type_synonym byte = "8 word"
type_synonym buffer = "byte list"

datatype error =
    TypeError
  | RangeError
  | NotImplementedError
  | UnknownControlByte int
  | UnexpectedResultLength int int
  | BigEndianNotSupported
  | SeekNotImplemented
  | UnknownPageType "int option"

text \<open>\<open>page[k]\<close>: \<open>undefined\<close> (here \<open>None\<close>) outside the buffer.\<close>

definition buf_at :: "buffer \<Rightarrow> int \<Rightarrow> byte option" where
  "buf_at page k = (if 0 \<le> k \<and> k < int (length page) then Some (page ! nat k) else None)"

text \<open>\<open>page.slice(start, stop)\<close>: negative indices count from the end, both are clamped.\<close>

definition buf_slice :: "buffer \<Rightarrow> int \<Rightarrow> int \<Rightarrow> buffer" where
  "buf_slice page start stop =
     (let n = int (length page);
          s = (if start < 0 then max (n + start) 0 else min start n);
          e = (if stop < 0 then max (n + stop) 0 else min stop n)
      in if s < e then take (nat (e - s)) (drop (nat s) page) else [])"

section \<open>Decompressor helpers\<close>

text \<open>
  \<open>Decompressor.to_ord\<close> applied to an element of the page: a number is returned as it
  is; on \<open>undefined\<close> the call \<open>int_or_str.charCodeAt(0)\<close> throws a TypeError.
\<close>

definition to_ord :: "byte option \<Rightarrow> error + byte" where
  "to_ord x = (case x of None \<Rightarrow> Inl TypeError | Some v \<Rightarrow> Inr v)"

text \<open>
  \<open>Decompressor.to_chr\<close>. The strings it builds have one character per byte, with that
  byte as character code, and the final \<open>Buffer.from(result.join(''), 'ascii')\<close> maps
  each character back to its code; so a string is kept as the list of its codes.
  On an element of the page the result is \<open>String.fromCharCode(x)\<close>, which is the
  character 0 for \<open>undefined\<close>; on a slice of the page it is the slice's bytes.
\<close>

definition to_chr :: "byte option \<Rightarrow> byte list" where
  "to_chr x = (case x of None \<Rightarrow> [0] | Some v \<Rightarrow> [v])"

definition to_chr_buf :: "buffer \<Rightarrow> byte list" where
  "to_chr_buf s = s"

section \<open>RLEDecompressor.decompress\_row\<close>

text \<open>
  One execution of the loop body for \<open>i = j\<close>: the new value of \<open>i\<close> (after the
  final \<open>i += 1\<close>) and the extended \<open>result\<close> array, or the exception thrown.
  \<open>current_result_array_index\<close> is written but never read and is left out.
\<close>

definition rle_short_copy :: "buffer \<Rightarrow> int \<Rightarrow> int \<Rightarrow> int \<Rightarrow> byte list list \<Rightarrow> int
    \<Rightarrow> error + int \<times> byte list list" where
  "rle_short_copy page offset len i result most =
     (let count_of_bytes_to_copy = min most (len - (i + 1));
          start = offset + i + 1;
          stop = start + count_of_bytes_to_copy
      in Inr (i + count_of_bytes_to_copy + 1, result @ [to_chr_buf (buf_slice page start stop)]))"

definition rle_step :: "buffer \<Rightarrow> int \<Rightarrow> int \<Rightarrow> int \<Rightarrow> byte list list
    \<Rightarrow> error + int \<times> byte list list" where
  "rle_step page offset len i result =
     (case to_ord (buf_at page (offset + i)) of
        Inl e \<Rightarrow> Inl e
      | Inr cb \<Rightarrow>
         (let control_byte = cb AND 0xF0;
              end_of_first_byte = uint (cb AND 0x0F)
          in if control_byte = 0x00 then
               (if i \<noteq> len - 1 then
                  (case to_ord (buf_at page (offset + i + 1)) of
                     Inl e \<Rightarrow> Inl e
                   | Inr nb \<Rightarrow>
                      (let count_of_bytes_to_copy =
                             uint (nb AND 0xFF) + 64 + end_of_first_byte * 256;
                           start = offset + i + 2;
                           stop = start + count_of_bytes_to_copy
                       in Inr (i + (count_of_bytes_to_copy + 1) + 1,
                               result @ [to_chr_buf (buf_slice page start stop)])))
                else Inr (i + 1, result))
             else if control_byte = 0x40 then
               (case to_ord (buf_at page (offset + i + 1)) of
                  Inl e \<Rightarrow> Inl e
                | Inr nb \<Rightarrow>
                   (let copy_counter = end_of_first_byte * 16 + uint (nb AND 0xFF)
                    in Inr (i + 2 + 1,
                            result @ replicate (nat (copy_counter + 18))
                                       (to_chr (buf_at page (offset + i + 2))))))
             else if control_byte = 0x60 then
               (case to_ord (buf_at page (offset + i + 1)) of
                  Inl e \<Rightarrow> Inl e
                | Inr nb \<Rightarrow>
                   Inr (i + 1 + 1,
                        result @ replicate (nat (end_of_first_byte * 256 + uint (nb AND 0xFF) + 17))
                                   (to_chr (Some 0x20))))
             else if control_byte = 0x70 then
               (case to_ord (buf_at page (offset + i + 1)) of
                  Inl e \<Rightarrow> Inl e
                | Inr nb \<Rightarrow>
                   Inr (i + 1 + 1,
                        result @ replicate (nat (end_of_first_byte * 256 + uint (nb AND 0xFF) + 17))
                                   (to_chr (Some 0x00))))
             else if control_byte = 0x80 then
               rle_short_copy page offset len i result (end_of_first_byte + 1)
             else if control_byte = 0x90 then
               rle_short_copy page offset len i result (end_of_first_byte + 17)
             else if control_byte = 0xA0 then
               rle_short_copy page offset len i result (end_of_first_byte + 33)
             else if control_byte = 0xB0 then
               rle_short_copy page offset len i result (end_of_first_byte + 49)
             else if control_byte = 0xC0 then
               Inr (i + 1 + 1,
                    result @ replicate (nat (end_of_first_byte + 3))
                               (to_chr (buf_at page (offset + i + 1))))
             else if control_byte = 0xD0 then
               Inr (i + 1, result @ replicate (nat (end_of_first_byte + 2)) (to_chr (Some 0x40)))
             else if control_byte = 0xE0 then
               Inr (i + 1, result @ replicate (nat (end_of_first_byte + 2)) (to_chr (Some 0x20)))
             else if control_byte = 0xF0 then
               Inr (i + 1, result @ replicate (nat (end_of_first_byte + 2)) (to_chr (Some 0x00)))
             else Inl (UnknownControlByte (uint control_byte))))"

text \<open>
  The loop \<open>for (let j = 0; j < length; j++) { if (i !== j) continue; ... }\<close>, from the
  current \<open>j\<close>, \<open>i\<close> and \<open>result\<close>.
\<close>

function rle_loop :: "buffer \<Rightarrow> int \<Rightarrow> int \<Rightarrow> int \<Rightarrow> int \<Rightarrow> byte list list
    \<Rightarrow> error + byte list list" where
  "rle_loop page offset len j i result =
     (if j < len then
        (if i \<noteq> j then rle_loop page offset len (j + 1) i result
         else (case rle_step page offset len i result of
                 Inl e \<Rightarrow> Inl e
               | Inr (i', result') \<Rightarrow> rle_loop page offset len (j + 1) i' result'))
      else Inr result)"
  by pat_completeness auto
termination
  by (relation "measure (\<lambda>(page, offset, len, j, i, result). nat (len - j))") auto

declare rle_loop.simps [simp del]

definition decompress_row :: "int \<Rightarrow> int \<Rightarrow> int \<Rightarrow> buffer \<Rightarrow> error + buffer" where
  "decompress_row offset len result_length page =
     (case rle_loop page offset len 0 0 [] of
        Inl e \<Rightarrow> Inl e
      | Inr result \<Rightarrow>
         (let joined = concat result
          in if int (length joined) \<noteq> result_length
             then Inl (UnexpectedResultLength (int (length joined)) result_length)
             else Inr joined))"

text \<open>
  The twelve values of \<open>control_byte\<close> that the chain of \<open>if\<close>s in the loop body
  tests for; any other value reaches the final \<open>throw\<close>.
\<close>

definition rle_control_bytes :: "byte list" where
  "rle_control_bytes = [0x00, 0x40, 0x60, 0x70, 0x80, 0x90, 0xA0, 0xB0, 0xC0, 0xD0, 0xE0, 0xF0]"

text \<open>
  The values of \<open>i\<close> and \<open>result\<close> with which the loop body is entered or the loop is
  left: the starting values, and those that a loop body executed at \<open>i < length\<close>
  leaves behind.
\<close>

inductive rle_reach :: "buffer \<Rightarrow> int \<Rightarrow> int \<Rightarrow> int \<Rightarrow> byte list list \<Rightarrow> bool"
  for page :: buffer and offset :: int and len :: int where
  reach_start: "rle_reach page offset len 0 []"
| reach_step: "rle_reach page offset len i result \<Longrightarrow> i < len \<Longrightarrow>
     rle_step page offset len i result = Inr (i', result') \<Longrightarrow>
     rle_reach page offset len i' result'"

text \<open>
  Bytes with which no output that begins with them continues as the three bytes \<open>X\<close> and
  the two zero bytes of the round-trip scenario: more than five of them, or a first or a
  second byte other than \<open>X\<close>.
\<close>

definition off_track :: "byte list \<Rightarrow> bool" where
  "off_track x = (5 < length x \<or> (x \<noteq> [] \<and> hd x \<noteq> 0x58) \<or> (2 \<le> length x \<and> x ! 1 \<noteq> 0x58))"

section \<open>JavaScript numbers, values and dates\<close>

text \<open>
  A JavaScript number is an IEEE-754 binary64 value: not-a-number, an infinity, or a
  finite value, kept as the rational it denotes (the two zeros are one value here).
  Decoding a bit pattern is exact. The three arithmetic operations of \<open>datetime\<close> below
  are the exact ones on finite values: the rounding of binary64 is not modelled.
\<close>

datatype jsnum = NaN | PInf | NInf | Fin rat

fun jmul :: "jsnum \<Rightarrow> jsnum \<Rightarrow> jsnum" where
  "jmul NaN _ = NaN"
| "jmul _ NaN = NaN"
| "jmul (Fin a) (Fin b) = Fin (a * b)"
| "jmul (Fin a) PInf = (if a = 0 then NaN else if 0 < a then PInf else NInf)"
| "jmul (Fin a) NInf = (if a = 0 then NaN else if 0 < a then NInf else PInf)"
| "jmul PInf (Fin b) = (if b = 0 then NaN else if 0 < b then PInf else NInf)"
| "jmul NInf (Fin b) = (if b = 0 then NaN else if 0 < b then NInf else PInf)"
| "jmul PInf PInf = PInf"
| "jmul PInf NInf = NInf"
| "jmul NInf PInf = NInf"
| "jmul NInf NInf = PInf"

fun jadd :: "jsnum \<Rightarrow> jsnum \<Rightarrow> jsnum" where
  "jadd NaN _ = NaN"
| "jadd _ NaN = NaN"
| "jadd (Fin a) (Fin b) = Fin (a + b)"
| "jadd (Fin a) PInf = PInf"
| "jadd (Fin a) NInf = NInf"
| "jadd PInf (Fin b) = PInf"
| "jadd NInf (Fin b) = NInf"
| "jadd PInf PInf = PInf"
| "jadd PInf NInf = NaN"
| "jadd NInf PInf = NaN"
| "jadd NInf NInf = NInf"

datatype jsval = JUndefined | JNull | JNum jsnum | JStr string

definition Number_isNaN :: "jsval \<Rightarrow> bool" where
  "Number_isNaN v = (v = JNum NaN)"

text \<open>
  A \<open>Date\<close> object: its time value is an integral number of milliseconds since
  1970-01-01T00:00:00Z, or it is an invalid date. \<open>new Date(tv)\<close> on a number clips it:
  a value that is not finite or beyond 8.64e15 in magnitude gives the invalid date,
  any other value is truncated towards zero.
\<close>

datatype jsdate = InvalidDate | ValidDate int

definition new_Date :: "jsnum \<Rightarrow> jsdate" where
  "new_Date tv =
     (case tv of
        Fin r \<Rightarrow>
          if \<bar>r\<bar> > 8640000000000000 then InvalidDate
          else ValidDate (if r < 0 then - \<lfloor>- r\<rfloor> else \<lfloor>r\<rfloor>)
      | _ \<Rightarrow> InvalidDate)"

text \<open>Year, month and day of a day number (days since 1970-01-01), proleptic Gregorian.\<close>

definition civil_from_days :: "int \<Rightarrow> int \<times> int \<times> int" where
  "civil_from_days z =
     (let z' = z + 719468;
          era = z' div 146097;
          doe = z' mod 146097;
          yoe = (doe - doe div 1460 + doe div 36524 - doe div 146096) div 365;
          y = yoe + era * 400;
          doy = doe - (365 * yoe + yoe div 4 - yoe div 100);
          mp = (5 * doy + 2) div 153;
          d = doy - (153 * mp + 2) div 5 + 1;
          m = (if mp < 10 then mp + 3 else mp - 9)
      in (if m \<le> 2 then y + 1 else y, m, d))"

fun pad_num :: "nat \<Rightarrow> nat \<Rightarrow> string" where
  "pad_num 0 n = []"
| "pad_num (Suc w) n = pad_num w (n div 10) @ [char_of (48 + n mod 10)]"

text \<open>
  \<open>Date.prototype.toISOString\<close>: a RangeError on the invalid date, otherwise
  \<open>YYYY-MM-DDTHH:mm:ss.sssZ\<close>, with a sign and six digits for a year outside 0..9999.
\<close>

definition toISOString :: "jsdate \<Rightarrow> error + string" where
  "toISOString d =
     (case d of
        InvalidDate \<Rightarrow> Inl RangeError
      | ValidDate t \<Rightarrow>
         (let (y, m, dd) = civil_from_days (t div 86400000);
              ms = t mod 86400000;
              year = (if 0 \<le> y \<and> y \<le> 9999 then pad_num 4 (nat y)
                      else (if y < 0 then ''-'' else ''+'') @ pad_num 6 (nat \<bar>y\<bar>))
          in Inr (year @ ''-'' @ pad_num 2 (nat m) @ ''-'' @ pad_num 2 (nat dd) @ ''T''
                  @ pad_num 2 (nat (ms div 3600000)) @ '':''
                  @ pad_num 2 (nat (ms div 60000 mod 60)) @ '':''
                  @ pad_num 2 (nat (ms div 1000 mod 60)) @ ''.''
                  @ pad_num 3 (nat (ms mod 1000)) @ ''Z'')))"

text \<open>\<open>str.slice(start, stop)\<close> for the non-negative constants used below.\<close>

definition str_slice :: "string \<Rightarrow> nat \<Rightarrow> nat \<Rightarrow> string" where
  "str_slice s start stop = take (stop - start) (drop start s)"

section \<open>datetime\<close>

text \<open>\<open>new Date('1960-01-01').getTime()\<close>: 3653 days before 1970-01-01.\<close>

definition epoch :: jsnum where
  "epoch = Fin (- 315619200000)"

type_synonym date_formatter = "jsdate \<Rightarrow> string \<Rightarrow> error + jsval"

definition default_date_formatter :: date_formatter where
  "default_date_formatter d output_format =
     (if output_format = ''date'' then
        (case toISOString d of Inl e \<Rightarrow> Inl e | Inr s \<Rightarrow> Inr (JStr (str_slice s 0 10)))
      else if output_format = ''time'' then
        (case toISOString d of Inl e \<Rightarrow> Inl e | Inr s \<Rightarrow> Inr (JStr (str_slice s 11 23)))
      else
        (case toISOString d of Inl e \<Rightarrow> Inl e | Inr s \<Rightarrow> Inr (JStr s)))"

definition datetime :: "jsnum \<Rightarrow> string \<Rightarrow> date_formatter option \<Rightarrow> string \<Rightarrow> error + jsval" where
  "datetime offset_from_epoch units date_formatter output_format =
     (let formatter = (case date_formatter of None \<Rightarrow> default_date_formatter | Some f \<Rightarrow> f);
          offset_from_epoch' =
            (if units = ''days'' then jmul offset_from_epoch (Fin (24 * 60 * 60))
             else offset_from_epoch);
          d = new_Date (jadd epoch (jmul offset_from_epoch' (Fin 1000)))
      in formatter d output_format)"

section \<open>struct\_unpack\<close>

definition uint_le :: "buffer \<Rightarrow> int" where
  "uint_le bs = foldr (\<lambda>b acc. uint b + 256 * acc) bs 0"

definition uint_be :: "buffer \<Rightarrow> int" where
  "uint_be bs = uint_le (rev bs)"

definition to_signed :: "nat \<Rightarrow> int \<Rightarrow> int" where
  "to_signed bits v = (if 2 ^ (bits - 1) \<le> v then v - 2 ^ bits else v)"

text \<open>
  \<open>buf.readIntLE(0, n)\<close>, \<open>buf.readIntBE(0, n)\<close> and the fixed-width variants: a
  RangeError when the buffer has fewer than \<open>n\<close> bytes.
\<close>

definition read_int :: "bool \<Rightarrow> nat \<Rightarrow> buffer \<Rightarrow> error + jsval" where
  "read_int big n buf =
     (if length buf < n then Inl RangeError
      else Inr (JNum (Fin (of_int (to_signed (8 * n)
                  ((if big then uint_be else uint_le) (take n buf)))))))"

text \<open>The binary64 value of a 64-bit pattern.\<close>

definition double_of_bits :: "int \<Rightarrow> jsnum" where
  "double_of_bits bits =
     (let s = bits div 2 ^ 63;
          e = bits div 2 ^ 52 mod 2 ^ 11;
          m = bits mod 2 ^ 52
      in if e = 2047 then (if m = 0 then (if s = 0 then PInf else NInf) else NaN)
         else
          (let mag = (if e = 0 then of_int m / 2 ^ 1074
                      else if 1075 \<le> e then of_int (2 ^ 52 + m) * 2 ^ nat (e - 1075)
                      else of_int (2 ^ 52 + m) / 2 ^ nat (1075 - e))
           in Fin (if s = 0 then mag else - mag)))"

definition read_double :: "bool \<Rightarrow> buffer \<Rightarrow> error + jsval" where
  "read_double big buf =
     (if length buf < 8 then Inl RangeError
      else Inr (JNum (double_of_bits ((if big then uint_be else uint_le) (take 8 buf)))))"

text \<open>
  \<open>struct_unpack(fmt, raw_bytes)\<close>. The first character of \<open>fmt\<close> gives the byte order,
  the last one the kind of value. \<open>raw_bytes.toString()\<close> is the runtime's UTF-8
  decoder, a parameter (\<open>to_string\<close>, applied to the name of the encoding) of the model.
\<close>

definition struct_unpack :: "(string \<Rightarrow> buffer \<Rightarrow> string) \<Rightarrow> string \<Rightarrow> buffer \<Rightarrow> error + jsval" where
  "struct_unpack to_string fmt raw_bytes =
     (let big = (case fmt of [] \<Rightarrow> True | c # _ \<Rightarrow> c \<noteq> CHR ''<'');
          letter = (case fmt of [] \<Rightarrow> None | _ \<Rightarrow> Some (last fmt))
      in if letter = Some CHR ''s'' then
           (if big then Inl BigEndianNotSupported
            else Inr (JStr (to_string ''utf8'' raw_bytes)))
         else if letter = Some CHR ''d'' then read_double big raw_bytes
         else if letter = Some CHR ''i'' then read_int big 4 raw_bytes
         else if letter = Some CHR ''b'' then read_int True 1 raw_bytes
         else if letter = Some CHR ''q'' then read_int big 6 raw_bytes
         else if letter = Some CHR ''h'' then read_int big 2 raw_bytes
         else Inr JUndefined)"

section \<open>The reader and its options\<close>

text \<open>
  The fields of a \<open>SAS7BDAT\<close> object that only its constructor assigns: the options and
  the three lists of format strings.
\<close>

record options =
  skip_header :: bool
  encoding :: string
  align_correction :: bool
  date_formatter :: "date_formatter option"
  row_format :: string
  TIME_FORMAT_STRINGS :: "string list"
  DATE_TIME_FORMAT_STRINGS :: "string list"
  DATE_FORMAT_STRINGS :: "string list"

text \<open>
  \<open>_update_format_strings(arr, format_strings)\<close>: \<open>None\<close> is \<open>null\<close>; a single string
  is passed as a one-element list.
\<close>

definition update_format_strings :: "string list \<Rightarrow> string list option \<Rightarrow> string list" where
  "update_format_strings arr format_strings =
     (case format_strings of
        None \<Rightarrow> arr
      | Some fs \<Rightarrow> foldl (\<lambda>a f. if f \<in> set a then a else a @ [f]) arr fs)"

definition new_options :: "string list option \<Rightarrow> string list option \<Rightarrow> string list option
    \<Rightarrow> bool \<Rightarrow> string \<Rightarrow> bool \<Rightarrow> date_formatter option \<Rightarrow> string \<Rightarrow> options" where
  "new_options extraTimeFormatStrings extraDatetimeFormatStrings extraDateFormatStrings
       skipHeader encoding' alignCorrection dateFormatter rowFormat =
     \<lparr> skip_header = skipHeader,
       encoding = encoding',
       align_correction = alignCorrection,
       date_formatter = dateFormatter,
       row_format = rowFormat,
       TIME_FORMAT_STRINGS = update_format_strings [''TIME''] extraTimeFormatStrings,
       DATE_TIME_FORMAT_STRINGS = update_format_strings [''DATETIME''] extraDatetimeFormatStrings,
       DATE_FORMAT_STRINGS =
         update_format_strings
           [''YYMMDD'', ''MMDDYY'', ''DDMMYY'', ''DATE'', ''JULIAN'', ''MONYY'', ''WEEKDATE'']
           extraDateFormatStrings \<rparr>"

definition RLE_COMPRESSION :: string where
  "RLE_COMPRESSION = ''SASYZCRL''"

definition RDC_COMPRESSION :: string where
  "RDC_COMPRESSION = ''SASYZCR2''"

record column =
  col_id :: int
  col_name :: "buffer option"
  col_label :: buffer
  col_format :: string
  col_type :: string
  col_length :: "int option"

record subheader_pointer =
  sp_offset :: int
  sp_length :: int
  sp_compression :: int
  sp_type :: int

text \<open>
  The numeric properties are \<open>null\<close> until the metadata is parsed; \<open>null\<close> counts as 0
  in the arithmetic and the comparisons that use them, and is 0 here.
\<close>

record properties =
  prop_u64 :: bool
  compression :: "string option"
  header_length :: int
  page_length :: int
  row_length :: int
  row_count :: int
  mix_page_row_count :: int
  column_count :: int

text \<open>
  The fields of a \<open>SAS7BDAT\<close> object that change while a file is read, as far as the
  functions below use them. \<open>properties\<close> is the object that the reader shares with its
  header; \<open>sas_file\<close> is the field \<open>_file\<close>.
\<close>

record sas7bdat =
  endianess :: "string option"
  u64 :: bool
  sas_file :: "buffer option"
  cached_page :: "buffer option"
  current_page_type :: "int option"
  current_page_block_count :: int
  current_page_subheaders_count :: int
  current_page_data_subheader_pointers :: "subheader_pointer list"
  current_row :: "jsval list"
  column_data_offsets :: "int list"
  column_data_lengths :: "int list"
  columns :: "column list"
  column_names_strings_decoded :: "string list option"
  properties :: properties
  parsed_header :: bool
  sent_header :: bool
  current_row_in_file_index :: int
  current_row_on_page_index :: int

text \<open>Constants and getters of \<open>SASHeader\<close>.\<close>

definition PAGE_BIT_OFFSET :: "sas7bdat \<Rightarrow> int" where
  "PAGE_BIT_OFFSET st = (if prop_u64 (properties st) then 32 else 16)"

definition SUBHEADER_POINTER_LENGTH :: "sas7bdat \<Rightarrow> int" where
  "SUBHEADER_POINTER_LENGTH st = (if prop_u64 (properties st) then 24 else 12)"

definition SUBHEADER_POINTERS_OFFSET :: int where
  "SUBHEADER_POINTERS_OFFSET = 8"

definition PAGE_META_TYPE :: int where
  "PAGE_META_TYPE = 0"

definition PAGE_DATA_TYPE :: int where
  "PAGE_DATA_TYPE = 256"

definition PAGE_MIX_TYPE :: "int list" where
  "PAGE_MIX_TYPE = [512, 640]"

section \<open>SAS7BDAT.\_read\_val\<close>

definition js_whitespace :: "char \<Rightarrow> bool" where
  "js_whitespace c = (of_char c \<in> {9, 10, 11, 12, 13, 32, 160 :: nat})"

text \<open>\<open>val.replace(/\0/g, '').trim()\<close>\<close>

definition strip_nul_trim :: "string \<Rightarrow> string" where
  "strip_nul_trim s =
     (let t = filter (\<lambda>c. of_char c \<noteq> (0 :: nat)) s
      in rev (dropWhile js_whitespace (rev (dropWhile js_whitespace t))))"

definition numeric_formats :: "string list" where
  "numeric_formats = [''number'', ''datetime'', ''date'', ''time'']"

text \<open>
  The bytes that are unpacked and the \<open>size\<close> they are cut to, for one of the four
  numeric formats: \<open>size\<close> becomes the number of bytes at hand, and fewer than 8 bytes
  are filled up with zero bytes.
\<close>

definition pad_numeric :: "string option \<Rightarrow> buffer \<Rightarrow> int \<Rightarrow> buffer \<times> int" where
  "pad_numeric endian raw_bytes sz =
     (let sz' = (if int (length raw_bytes) \<noteq> sz then int (length raw_bytes) else sz)
      in if sz' < 8 then
           (let bytes_new = replicate (nat (8 - sz')) 0x00
            in (if endian = Some ''little'' then bytes_new @ raw_bytes
                else raw_bytes @ bytes_new, 8))
         else (raw_bytes, sz'))"

text \<open>
  The end of \<open>_read_val\<close>: what becomes of the value \<open>val\<close> that \<open>struct_unpack\<close>
  returned. Under the formats \<open>datetime\<close>, \<open>time\<close> and \<open>date\<close> the value is a
  number. The \<open>try\<close> around the decoding as days catches every exception.
\<close>

definition finish_val :: "options \<Rightarrow> string \<Rightarrow> jsval \<Rightarrow> error + jsval" where
  "finish_val opts fmt val =
     (if fmt = ''s'' then
        (case val of JStr s \<Rightarrow> Inr (JStr (strip_nul_trim s)) | _ \<Rightarrow> Inl TypeError)
      else if Number_isNaN val then Inr JNull
      else if fmt = ''datetime'' then
        (case val of
           JNum v \<Rightarrow> datetime v ''seconds'' (date_formatter opts) ''datetime''
         | _ \<Rightarrow> Inr val)
      else if fmt = ''time'' then
        (case val of
           JNum v \<Rightarrow> datetime v ''seconds'' (date_formatter opts) ''time''
         | _ \<Rightarrow> Inr val)
      else if fmt = ''date'' then
        (case val of
           JNum v \<Rightarrow>
             (case datetime v ''days'' (date_formatter opts) ''date'' of
                Inr d \<Rightarrow> Inr d
              | Inl err \<Rightarrow> datetime v ''seconds'' (date_formatter opts) ''datetime'')
         | _ \<Rightarrow> Inr val)
      else Inr val)"

text \<open>
  \<open>_read_val(fmt, raw_bytes, size)\<close>. For the format \<open>s\<close> the digits that the code
  puts before the letter are left out: \<open>struct_unpack\<close> does not read them.
\<close>

definition read_val :: "(string \<Rightarrow> buffer \<Rightarrow> string) \<Rightarrow> options \<Rightarrow> sas7bdat
    \<Rightarrow> string \<Rightarrow> buffer \<Rightarrow> int \<Rightarrow> error + jsval" where
  "read_val to_string opts st fmt0 raw_bytes0 sz0 =
     (let fmt = (if fmt0 = ''i'' \<and> u64 st \<and> sz0 = 8 then ''q'' else fmt0);
          (newfmt, raw_bytes, sz) =
            (if fmt = ''s'' then (''s'', raw_bytes0, sz0)
             else if fmt \<in> set numeric_formats then
               (let (padded, sz') = pad_numeric (endianess st) raw_bytes0 sz0
                in (''d'', padded, sz'))
             else (fmt, raw_bytes0, sz0));
          newfmt' = (if endianess st = Some ''big'' then ''>'' @ newfmt else ''<'' @ newfmt)
      in case struct_unpack to_string newfmt' (buf_slice raw_bytes 0 sz) of
           Inl e \<Rightarrow> Inl e
         | Inr val \<Rightarrow> finish_val opts fmt val)"

section \<open>SAS7BDAT.\_process\_byte\_array\_with\_data\<close>

definition nth_opt :: "'a list \<Rightarrow> int \<Rightarrow> 'a option" where
  "nth_opt xs i = (if 0 \<le> i \<and> i < int (length xs) then Some (xs ! nat i) else None)"

text \<open>The format under which a numeric column longer than two bytes is read.\<close>

definition column_fmt :: "options \<Rightarrow> column \<Rightarrow> string" where
  "column_fmt opts col =
     (let fmt = col_format col
      in if fmt = [] then ''number''
         else if fmt \<in> set (TIME_FORMAT_STRINGS opts) then ''time''
         else if fmt \<in> set (DATE_TIME_FORMAT_STRINGS opts) then ''datetime''
         else if fmt \<in> set (DATE_FORMAT_STRINGS opts) then ''date''
         else ''number'')"

text \<open>
  The body of the loop over the columns after the test for a zero length: the element
  pushed for column \<open>i\<close>. Where \<open>column_data_offsets[i]\<close> or \<open>column_data_lengths[i]\<close>
  is \<open>undefined\<close>, a bound of the slice is NaN and the slice is empty; \<open>_read_val\<close>
  with \<open>undefined\<close> as size on the empty slice does what it does with size 0.
  \<open>decode\<close> applied to the string that \<open>_read_val\<close> returns is that string.
\<close>

definition read_column :: "(string \<Rightarrow> buffer \<Rightarrow> string) \<Rightarrow> options \<Rightarrow> sas7bdat
    \<Rightarrow> buffer \<Rightarrow> int \<Rightarrow> int \<Rightarrow> error + jsval" where
  "read_column to_string opts st source offset i =
     (let len = nth_opt (column_data_lengths st) i;
          temp = (case (nth_opt (column_data_offsets st) i, len) of
                    (Some off, Some l) \<Rightarrow> buf_slice source (offset + off) (offset + off + l)
                  | _ \<Rightarrow> []);
          sz = (case len of Some l \<Rightarrow> l | None \<Rightarrow> 0)
      in case nth_opt (columns st) i of
           None \<Rightarrow> Inl TypeError
         | Some col \<Rightarrow>
            (if col_type col = ''number'' then
               (if len \<noteq> None \<and> sz \<le> 2 then read_val to_string opts st ''h'' temp sz
                else read_val to_string opts st (column_fmt opts col) temp sz)
             else read_val to_string opts st ''s'' temp sz))"

function read_columns :: "(string \<Rightarrow> buffer \<Rightarrow> string) \<Rightarrow> options \<Rightarrow> sas7bdat
    \<Rightarrow> buffer \<Rightarrow> int \<Rightarrow> int \<Rightarrow> jsval list \<Rightarrow> error + jsval list" where
  "read_columns to_string opts st source offset i row_elements =
     (if i < column_count (properties st) then
        (if nth_opt (column_data_lengths st) i = Some 0 then Inr row_elements
         else (case read_column to_string opts st source offset i of
                 Inl e \<Rightarrow> Inl e
               | Inr v \<Rightarrow>
                   read_columns to_string opts st source offset (i + 1) (row_elements @ [v])))
      else Inr row_elements)"
  by pat_completeness auto
termination
  by (relation "measure (\<lambda>(to_string, opts, st, source, offset, i, row_elements).
                  nat (column_count (properties st) - i))") auto

declare read_columns.simps [simp del]

text \<open>
  \<open>_process_byte_array_with_data(offset, length)\<close> on the cached page \<open>page\<close>.
  \<open>DECOMPRESSORS\<close> has the two compression literals as keys: \<open>new\<close> on its value for
  another string is a TypeError, and \<open>new RDCDecompressor(this)\<close> throws in the
  constructor. The empty string is falsy.
\<close>

definition process_byte_array_with_data :: "(string \<Rightarrow> buffer \<Rightarrow> string) \<Rightarrow> options
    \<Rightarrow> sas7bdat \<Rightarrow> buffer \<Rightarrow> int \<Rightarrow> int \<Rightarrow> error + jsval list" where
  "process_byte_array_with_data to_string opts st page offset len =
     (case (case compression (properties st) of
              None \<Rightarrow> Inr (page, offset)
            | Some c \<Rightarrow>
               (if c \<noteq> [] \<and> len < row_length (properties st) then
                  (if c = RLE_COMPRESSION then
                     (case decompress_row offset len (row_length (properties st)) page of
                        Inl e \<Rightarrow> Inl e
                      | Inr source \<Rightarrow> Inr (source, 0))
                   else if c = RDC_COMPRESSION then Inl NotImplementedError
                   else Inl TypeError)
                else Inr (page, offset))) of
        Inl e \<Rightarrow> Inl e
      | Inr (source, offset') \<Rightarrow> read_columns to_string opts st source offset' 0 [])"

section \<open>SAS7BDAT.readline\<close>

text \<open>
  What \<open>readline\<close> returns: the array of column names (the header row), the current row
  as an array or as an object, or \<open>null\<close> at the end of the data. The header row and a
  row are both arrays in the code; they are told apart here by the \<open>return\<close> statement
  they come from. An object is the list of its properties (an assignment to the key
  \<open>__proto__\<close>, which creates no property, is not modelled).
\<close>

datatype line =
    Names "string list"
  | RowArray "jsval list"
  | RowObject "(string \<times> jsval) list"
  | EndOfStream

fun obj_set :: "string \<Rightarrow> jsval \<Rightarrow> (string \<times> jsval) list \<Rightarrow> (string \<times> jsval) list" where
  "obj_set k v [] = [(k, v)]"
| "obj_set k v ((k', v') # rest) =
     (if k = k' then (k, v) # rest else (k', v') # obj_set k v rest)"

text \<open>
  \<open>current_row.reduce((obj, val, i) => { obj[names[i] ] = val; return obj; }, {})\<close>,
  from index \<open>i\<close> on; a name that is \<open>undefined\<close> is the key \<open>undefined\<close>.
\<close>

fun row_object :: "string list \<Rightarrow> nat \<Rightarrow> jsval list \<Rightarrow> (string \<times> jsval) list
    \<Rightarrow> (string \<times> jsval) list" where
  "row_object names i [] obj = obj"
| "row_object names i (val # vals) obj =
     row_object names (Suc i) vals
       (obj_set (if i < length names then names ! i else ''undefined'') val obj)"

definition format_row :: "options \<Rightarrow> sas7bdat \<Rightarrow> error + line" where
  "format_row opts st =
     (if row_format opts = ''object'' then
        (case column_names_strings_decoded st of
           None \<Rightarrow> (if current_row st = [] then Inr (RowObject []) else Inl TypeError)
         | Some names \<Rightarrow> Inr (RowObject (row_object names 0 (current_row st) [])))
      else Inr (RowArray (current_row st)))"

text \<open>The two values of \<open>readline\<close> that are a data row.\<close>

fun is_data_row :: "line \<Rightarrow> bool" where
  "is_data_row (RowArray row) = True"
| "is_data_row (RowObject obj) = True"
| "is_data_row (Names names) = False"
| "is_data_row EndOfStream = False"

text \<open>The operator \<open>%\<close> on integers: the sign of the result is that of the dividend.\<close>

definition js_rem :: "int \<Rightarrow> int \<Rightarrow> int" where
  "js_rem a b = (if a < 0 then - ((- a) mod \<bar>b\<bar>) else a mod \<bar>b\<bar>)"

text \<open>
  \<open>_read_next_page\<close> followed by \<open>this.current_row_on_page_index = 0\<close>, when \<open>cond\<close>
  holds. \<open>_read_next_page\<close> and \<open>parse_header\<close> (the header and metadata parser) are
  parameters of the model of \<open>readline\<close>: functions on the reader's state that may fail.
\<close>

definition next_page_if :: "(sas7bdat \<Rightarrow> error + sas7bdat) \<Rightarrow> bool \<Rightarrow> sas7bdat
    \<Rightarrow> error + sas7bdat" where
  "next_page_if read_next_page cond st =
     (if cond then
        (case read_next_page st of
           Inl e \<Rightarrow> Inl e
         | Inr st' \<Rightarrow> Inr (st'\<lparr>current_row_on_page_index := 0\<rparr>))
      else Inr st)"

text \<open>The offset of the current row on a mix page, as \<open>readline\<close> computes it.\<close>

definition mix_row_offset :: "options \<Rightarrow> sas7bdat \<Rightarrow> int" where
  "mix_row_offset opts st =
     (let bit_offset = PAGE_BIT_OFFSET st;
          subheader_pointer_length = SUBHEADER_POINTER_LENGTH st;
          align_correction' =
            (if align_correction opts then
               js_rem (bit_offset + SUBHEADER_POINTERS_OFFSET +
                       current_page_subheaders_count st * subheader_pointer_length) 8
             else 0)
      in bit_offset + SUBHEADER_POINTERS_OFFSET + align_correction' +
         current_page_subheaders_count st * subheader_pointer_length +
         current_row_on_page_index st * row_length (properties st))"

text \<open>
  The branch on the page type, after \<open>current_row_in_file_index\<close> has been counted up:
  the state in which \<open>readline\<close> builds its return value. \<open>page\<close> is the cached page.
\<close>

definition read_row :: "(sas7bdat \<Rightarrow> error + sas7bdat) \<Rightarrow> (string \<Rightarrow> buffer \<Rightarrow> string)
    \<Rightarrow> options \<Rightarrow> sas7bdat \<Rightarrow> buffer \<Rightarrow> error + sas7bdat" where
  "read_row read_next_page to_string opts st page =
     (if current_page_type st = Some PAGE_META_TYPE then
        (if current_row_on_page_index st
              < int (length (current_page_data_subheader_pointers st))
            \<and> current_row_on_page_index st \<ge> 0 then
           (let current_subheader_pointer =
                  current_page_data_subheader_pointers st ! nat (current_row_on_page_index st);
                st1 = st\<lparr>current_row_on_page_index := current_row_on_page_index st + 1\<rparr>
            in case process_byte_array_with_data to_string opts st1 page
                      (sp_offset current_subheader_pointer)
                      (sp_length current_subheader_pointer) of
                 Inl e \<Rightarrow> Inl e
               | Inr row \<Rightarrow>
                  (let st2 = st1\<lparr>current_row := row\<rparr>
                   in next_page_if read_next_page
                        (current_row_on_page_index st2
                           = int (length (current_page_data_subheader_pointers st2))) st2))
         else next_page_if read_next_page True st)
      else if current_page_type st \<in> Some ` set PAGE_MIX_TYPE then
        (case process_byte_array_with_data to_string opts st page
                (mix_row_offset opts st) (row_length (properties st)) of
           Inl e \<Rightarrow> Inl e
         | Inr row \<Rightarrow>
            (let st1 = st\<lparr>current_row := row,
                          current_row_on_page_index := current_row_on_page_index st + 1\<rparr>
             in next_page_if read_next_page
                  (current_row_on_page_index st1
                     = min (row_count (properties st1)) (mix_page_row_count (properties st1)))
                  st1))
      else if current_page_type st = Some PAGE_DATA_TYPE then
        (case process_byte_array_with_data to_string opts st page
                (PAGE_BIT_OFFSET st + SUBHEADER_POINTERS_OFFSET +
                 current_row_on_page_index st * row_length (properties st))
                (row_length (properties st)) of
           Inl e \<Rightarrow> Inl e
         | Inr row \<Rightarrow>
            (let st1 = st\<lparr>current_row := row,
                          current_row_on_page_index := current_row_on_page_index st + 1\<rparr>
             in next_page_if read_next_page
                  (current_row_on_page_index st1 = current_page_block_count st1) st1))
      else Inl (UnknownPageType (current_page_type st)))"

text \<open>
  The decoded column names, computed on the first call; \<open>decode\<close> of a name that is
  \<open>undefined\<close> is a TypeError.
\<close>

definition decode_names :: "(string \<Rightarrow> buffer \<Rightarrow> string) \<Rightarrow> options \<Rightarrow> sas7bdat
    \<Rightarrow> error + sas7bdat" where
  "decode_names to_string opts st =
     (case column_names_strings_decoded st of
        Some names \<Rightarrow> Inr st
      | None \<Rightarrow>
         (if None \<in> set (map col_name (columns st)) then Inl TypeError
          else Inr (st\<lparr>column_names_strings_decoded :=
                 Some (map (\<lambda>x. to_string (encoding opts) (the (col_name x))) (columns st))\<rparr>)))"

definition readline :: "(sas7bdat \<Rightarrow> error + sas7bdat) \<Rightarrow> (sas7bdat \<Rightarrow> error + sas7bdat)
    \<Rightarrow> (string \<Rightarrow> buffer \<Rightarrow> string) \<Rightarrow> options \<Rightarrow> sas7bdat \<Rightarrow> error + sas7bdat \<times> line" where
  "readline parse_header read_next_page to_string opts st0 =
     (case (if \<not> parsed_header st0 then
              (case parse_header st0 of
                 Inl e \<Rightarrow> Inl e
               | Inr s \<Rightarrow> Inr (s\<lparr>parsed_header := True\<rparr>))
            else Inr st0) of
        Inl e \<Rightarrow> Inl e
      | Inr st1 \<Rightarrow>
         (case decode_names to_string opts st1 of
            Inl e \<Rightarrow> Inl e
          | Inr st \<Rightarrow>
             (if \<not> skip_header opts \<and> \<not> sent_header st \<and> row_format opts = ''array'' then
                (case column_names_strings_decoded st of
                   None \<Rightarrow> Inl TypeError
                 | Some names \<Rightarrow> Inr (st\<lparr>sent_header := True\<rparr>, Names names))
              else
                (case cached_page st of
                   None \<Rightarrow> Inl SeekNotImplemented
                 | Some page \<Rightarrow>
                    (if current_row_in_file_index st < row_count (properties st) then
                       (case read_row read_next_page to_string opts
                               (st\<lparr>current_row_in_file_index :=
                                     current_row_in_file_index st + 1\<rparr>) page of
                          Inl e \<Rightarrow> Inl e
                        | Inr st' \<Rightarrow>
                           (case format_row opts st' of
                              Inl e \<Rightarrow> Inl e
                            | Inr l \<Rightarrow> Inr (st', l)))
                     else Inr (st\<lparr>sas_file := None\<rparr>, EndOfStream))))))"

text \<open>
  \<open>n\<close> successive calls of \<open>readline\<close>, as the read stream makes them: the final state
  and the values returned, in order; the first exception ends the run.
\<close>

fun readlines :: "(sas7bdat \<Rightarrow> error + sas7bdat) \<Rightarrow> (sas7bdat \<Rightarrow> error + sas7bdat)
    \<Rightarrow> (string \<Rightarrow> buffer \<Rightarrow> string) \<Rightarrow> options \<Rightarrow> nat \<Rightarrow> sas7bdat
    \<Rightarrow> error + sas7bdat \<times> line list" where
  "readlines parse_header read_next_page to_string opts 0 st = Inr (st, [])"
| "readlines parse_header read_next_page to_string opts (Suc n) st =
     (case readline parse_header read_next_page to_string opts st of
        Inl e \<Rightarrow> Inl e
      | Inr (st', l) \<Rightarrow>
         (case readlines parse_header read_next_page to_string opts n st' of
            Inl e \<Rightarrow> Inl e
          | Inr (st'', ls) \<Rightarrow> Inr (st'', l # ls)))"

section \<open>Sample readers\<close>

text \<open>
  A decoder for the runtime's \<open>toString\<close>: one character per byte, which is what every
  encoding of the runtime does on bytes below 0x80.
\<close>

definition bytes_to_string :: "string \<Rightarrow> buffer \<Rightarrow> string" where
  "bytes_to_string enc buf = map (\<lambda>b. char_of (unat b)) buf"

text \<open>The options of a reader constructed with the option \<open>rowFormat\<close> alone.\<close>

definition options_with_row_format :: "string \<Rightarrow> options" where
  "options_with_row_format rowFormat =
     new_options None None None False ''utf8'' True None rowFormat"

text \<open>
  A page of 72 bytes for a little-endian 32-bit file with rows of one 8-byte number:
  1.0 and 2.0 where a data page has its first two rows, 3.0 and 4.0 where a mix page with
  one subheader pointer has them, and at 56 the four bytes of the RLE stream for 1.0.
\<close>

definition sample_page :: buffer where
  "sample_page = replicate 24 0x00
     @ [0x00, 0x00, 0x00, 0x00, 0x00, 0x00, 0xF0, 0x3F]
     @ [0x00, 0x00, 0x00, 0x00, 0x00, 0x00, 0x00, 0x40]
     @ [0x00, 0x00, 0x00, 0x00, 0x00, 0x00, 0x08, 0x40]
     @ [0x00, 0x00, 0x00, 0x00, 0x00, 0x00, 0x10, 0x40]
     @ [0xF4, 0x81, 0xF0, 0x3F]
     @ replicate 12 0x00"

text \<open>
  A reader after its header has been parsed, with that page as current page of the given
  type, at the first of two rows, with one numeric column \<open>x\<close>.
\<close>

definition sample_reader :: "int \<Rightarrow> string option \<Rightarrow> sas7bdat" where
  "sample_reader page_type compr =
     \<lparr> endianess = Some ''little'',
       u64 = False,
       sas_file = Some [],
       cached_page = Some sample_page,
       current_page_type = Some page_type,
       current_page_block_count = 2,
       current_page_subheaders_count = 1,
       current_page_data_subheader_pointers =
         [\<lparr>sp_offset = 56, sp_length = 4, sp_compression = 4, sp_type = 1\<rparr>,
          \<lparr>sp_offset = 56, sp_length = 4, sp_compression = 4, sp_type = 1\<rparr>],
       current_row = [],
       column_data_offsets = [0],
       column_data_lengths = [8],
       columns = [\<lparr>col_id = 0, col_name = Some [0x78], col_label = [], col_format = [],
                   col_type = ''number'', col_length = Some 8\<rparr>],
       column_names_strings_decoded = None,
       properties = \<lparr>prop_u64 = False, compression = compr, header_length = 1024,
                      page_length = 72, row_length = 8, row_count = 2,
                      mix_page_row_count = 2, column_count = 1\<rparr>,
       parsed_header = True,
       sent_header = False,
       current_row_in_file_index = 0,
       current_row_on_page_index = 0 \<rparr>"


section \<open>Properties of the RLE decompressor\<close>

lemma replicate_numeral: "replicate (numeral k) x = x # replicate (pred_numeral k) x"
  by (simp add: numeral_eq_Suc)

lemmas rle_eval =
  decompress_row_def rle_step_def rle_short_copy_def to_ord_def to_chr_def to_chr_buf_def
  buf_at_def buf_slice_def replicate_numeral

subsection \<open>The loop visits exactly the record starts\<close>

lemma rle_short_copy_advances:
  "i < len \<Longrightarrow> 0 \<le> lo \<Longrightarrow>
   rle_short_copy page offset len i result (lo + numeral k) = Inr (i', result') \<Longrightarrow> i < i'"
  by (auto simp: rle_short_copy_def Let_def)

lemma rle_short_copy_advances1:
  "i < len \<Longrightarrow> 0 \<le> lo \<Longrightarrow>
   rle_short_copy page offset len i result (lo + 1) = Inr (i', result') \<Longrightarrow> i < i'"
  by (auto simp: rle_short_copy_def Let_def)

lemma rle_long_copy_positive: "0 < 66 + (uint (a :: byte) + uint (b :: byte) * 256)"
  using uint_ge_0 [of a] uint_ge_0 [of b] by linarith

lemma rle_step_advances:
  assumes "i < len" and "rle_step page offset len i result = Inr (i', result')"
  shows "i < i'"
proof (cases "buf_at page (offset + i)")
  case None
  then show ?thesis using assms by (simp add: rle_step_def to_ord_def)
next
  case (Some cb)
  have lo: "0 \<le> uint (cb AND 0x0F)" by simp
  from assms(2) Some show ?thesis
    unfolding rle_step_def to_ord_def Let_def
    by (auto simp: rle_long_copy_positive split: if_splits option.splits
             elim: rle_short_copy_advances [OF assms(1) lo]
                   rle_short_copy_advances1 [OF assms(1) lo])
qed

text \<open>While \<open>j\<close> is behind \<open>i\<close> the loop only counts \<open>j\<close> up.\<close>

lemma rle_loop_skip:
  "j \<le> i \<Longrightarrow> rle_loop page offset len j i result =
     (if i < len then rle_loop page offset len i i result else Inr result)"
proof (induction page offset len j i result rule: rle_loop.induct)
  case (1 page offset len j i result)
  show ?case
  proof (cases "j < len \<and> i \<noteq> j")
    case True
    then have "rle_loop page offset len j i result = rle_loop page offset len (j + 1) i result"
      by (simp add: rle_loop.simps [of page offset len j i result])
    also have "\<dots> = (if i < len then rle_loop page offset len i i result else Inr result)"
      using True "1.prems" by (intro "1.IH"(1)) auto
    finally show ?thesis .
  next
    case False
    show ?thesis
    proof (cases "j < len")
      case True
      with False show ?thesis by simp
    next
      case False
      with "1.prems" show ?thesis
        by (simp add: rle_loop.simps [of page offset len j i result])
    qed
  qed
qed

lemma rle_loop_record:
  assumes "i < len"
  shows "rle_loop page offset len i i result =
     (case rle_step page offset len i result of
        Inl e \<Rightarrow> Inl e
      | Inr (i', result') \<Rightarrow>
          if i' < len then rle_loop page offset len i' i' result' else Inr result')"
proof (cases "rle_step page offset len i result")
  case (Inl e)
  then show ?thesis using assms by (simp add: rle_loop.simps [of page offset len i i result])
next
  case (Inr p)
  obtain i' result' where p: "p = (i', result')" by (cases p)
  have "i < i'" using rle_step_advances [OF assms] Inr p by simp
  then have "rle_loop page offset len (i + 1) i' result' =
      (if i' < len then rle_loop page offset len i' i' result' else Inr result')"
    by (intro rle_loop_skip) simp
  then show ?thesis
    using assms Inr p by (simp add: rle_loop.simps [of page offset len i i result])
qed

lemma rle_reach_loop:
  assumes "rle_reach page offset len i result"
  shows "rle_loop page offset len 0 0 [] =
     (if i < len then rle_loop page offset len i i result else Inr result)"
  using assms
proof (induction rule: rle_reach.induct)
  case reach_start
  then show ?case by (simp add: rle_loop.simps [of page offset len 0 0 "[]"])
next
  case (reach_step i result i' result')
  then show ?case by (simp add: rle_loop_record)
qed

lemma rle_step_unknown:
  assumes "buf_at page (offset + i) = Some cb" and "cb AND 0xF0 \<notin> set rle_control_bytes"
  shows "rle_step page offset len i result = Inl (UnknownControlByte (uint (cb AND 0xF0)))"
  using assms by (simp add: rle_step_def to_ord_def rle_control_bytes_def)

lemma nat_uint_plus: "nat (uint (w :: byte) + numeral k) = unat w + numeral k"
  by (simp add: nat_add_distrib)

text \<open>The loop only appends to \<open>result\<close>.\<close>

lemma rle_step_appends:
  assumes "rle_step page offset len i result = Inr (i', result')"
  shows "\<exists>chunks. result' = result @ chunks"
  using assms
  by (auto simp: rle_step_def rle_short_copy_def Let_def to_ord_def
           split: option.splits if_splits)

lemma rle_loop_appends:
  "rle_loop page offset len j i result = Inr r \<Longrightarrow> \<exists>chunks. r = result @ chunks"
proof (induction page offset len j i result rule: rle_loop.induct)
  case (1 page offset len j i result)
  show ?case
  proof (cases "j < len")
    case False
    then show ?thesis using "1.prems" by (simp add: rle_loop.simps [of page offset len j i result])
  next
    case True
    show ?thesis
    proof (cases "i \<noteq> j")
      case neq: True
      then have "rle_loop page offset len (j + 1) i result = Inr r"
        using "1.prems" True by (simp add: rle_loop.simps [of page offset len j i result])
      then show ?thesis using "1.IH"(1) [OF True neq] by simp
    next
      case False
      then have ij: "i = j" by simp
      have "\<exists>i' result'. rle_step page offset len i result = Inr (i', result')
          \<and> rle_loop page offset len (j + 1) i' result' = Inr r"
        using "1.prems" True unfolding ij
        by (simp add: rle_loop.simps [of page offset len j j result] split: sum.splits prod.splits)
      then obtain i' result' where
        s: "rle_step page offset len i result = Inr (i', result')" and
        l: "rle_loop page offset len (j + 1) i' result' = Inr r"
        by blast
      have "\<not> i \<noteq> j" using ij by simp
      from "1.IH"(2) [OF True this s refl l]
      obtain c2 where "r = result' @ c2" by auto
      moreover obtain c1 where "result' = result @ c1" using rle_step_appends [OF s] by blast
      ultimately show ?thesis by simp
    qed
  qed
qed


subsection \<open>Short repeat and fill records\<close>

text \<open>
  C1, as the code has it. The control byte \<open>cb\<close> is the byte at the cursor
  (\<open>page[offset + i]\<close>), \<open>lo\<close> is its low nibble.
  High nibble 0xC0: the loop body appends \<open>lo + 3\<close> copies of the byte at the next
  position and leaves the cursor 2 bytes further (the control byte and its operand).
  High nibble 0xD0, 0xE0, 0xF0: it appends \<open>lo + 2\<close> copies of 0x40, 0x20, 0x00 and
  leaves the cursor 1 byte further (the control byte alone).
\<close>

theorem rle_short_records:
  assumes "buf_at page (offset + i) = Some cb"
  shows "(cb AND 0xF0 = 0xC0 \<longrightarrow>
            (\<forall>nb. buf_at page (offset + i + 1) = Some nb \<longrightarrow>
               rle_step page offset len i result =
                 Inr (i + 2, result @ replicate (unat (cb AND 0x0F) + 3) [nb])))
       \<and> (cb AND 0xF0 = 0xD0 \<longrightarrow>
            rle_step page offset len i result =
              Inr (i + 1, result @ replicate (unat (cb AND 0x0F) + 2) [0x40]))
       \<and> (cb AND 0xF0 = 0xE0 \<longrightarrow>
            rle_step page offset len i result =
              Inr (i + 1, result @ replicate (unat (cb AND 0x0F) + 2) [0x20]))
       \<and> (cb AND 0xF0 = 0xF0 \<longrightarrow>
            rle_step page offset len i result =
              Inr (i + 1, result @ replicate (unat (cb AND 0x0F) + 2) [0x00]))"
  using assms by (simp add: rle_step_def to_ord_def to_chr_def nat_uint_plus)

theorem rle_short_records_witness:
  "rle_step [0xC5, 0x58] 0 2 0 [] = Inr (2, replicate 8 [0x58])
   \<and> rle_step [0xD1] 0 1 0 [] = Inr (1, [ [0x40], [0x40], [0x40] ])
   \<and> rle_step [0xE0] 0 1 0 [] = Inr (1, [ [0x20], [0x20] ])
   \<and> rle_step [0xFF] 0 1 0 [] = Inr (1, replicate 17 [0x00])"
proof -
  have a: "buf_at [0xC5, 0x58] (0 + 0) = Some 0xC5" "buf_at [0xC5, 0x58] (0 + 0 + 1) = Some 0x58"
    "buf_at [0xD1] (0 + 0) = Some 0xD1" "buf_at [0xE0] (0 + 0) = Some 0xE0"
    "buf_at [0xFF] (0 + 0) = Some 0xFF"
    by (simp_all add: buf_at_def)
  show ?thesis
    using rle_short_records [OF a(1), of 2 "[]"] a(2)
      rle_short_records [OF a(3), of 1 "[]"]
      rle_short_records [OF a(4), of 1 "[]"]
      rle_short_records [OF a(5), of 1 "[]"]
    by simp
qed

text \<open>
  The cursor advances that C1 states (1 + 1 after a fill, 2 + 1 after a short repeat) are
  not the code's: after the fill record 0xE0 at position 0 the cursor is 1, after the
  repeat record 0xC0 at position 0 it is 2.
\<close>

theorem rle_short_records_advance_counterexample:
  "map_sum id fst (rle_step [0xE0, 0x41] 0 2 0 []) \<noteq> Inr (0 + (1 + 1))
   \<and> map_sum id fst (rle_step [0xC0, 0x58, 0x41] 0 3 0 []) \<noteq> Inr (0 + (2 + 1))"
  by (simp add: rle_eval)

subsection \<open>The round-trip scenario\<close>

text \<open>
  C2, as the code has it: the records of the scenario follow each other without filler
  bytes. The four-byte stream 0xE0, 0xC0, 'X', 0xF0 decompressed with
  \<open>result_length = 7\<close> is the seven bytes 0x20 0x20 'X' 'X' 'X' 0x00 0x00.
\<close>

theorem rle_round_trip_packed:
  "decompress_row 0 4 7 [0xE0, 0xC0, 0x58, 0xF0] = Inr [0x20, 0x20, 0x58, 0x58, 0x58, 0x00, 0x00]"
  by (simp add: rle_eval rle_loop.simps)

text \<open>
  The six-byte stream of C2, with 0x00 as the two filler bytes: the byte after 0xE0 is read
  as the next control byte (a long copy), five bytes come out and the length check throws.
\<close>

theorem rle_round_trip_counterexample:
  "decompress_row 0 6 7 [0xE0, 0x00, 0xC0, 0x58, 0xF0, 0x00] = Inl (UnexpectedResultLength 5 7)
   \<and> decompress_row 0 6 7 [0xE0, 0x00, 0xC0, 0x58, 0xF0, 0x00]
       \<noteq> Inr [0x20, 0x20, 0x58, 0x58, 0x58, 0x00, 0x00]"
  by (simp add: rle_eval rle_loop.simps)

text \<open>
  No choice of the two filler bytes makes the six-byte stream decompress to the seven
  bytes: whatever the byte after 0xE0 is, the record it starts puts a byte other than
  \<open>X\<close> among the next two bytes of the output, or more than five bytes, or fails.
\<close>

lemma off_track_no_prefix:
  assumes "off_track x"
  shows "x @ rest \<noteq> [0x58, 0x58, 0x58, 0x00, 0x00]"
proof
  assume e: "x @ rest = [0x58, 0x58, 0x58, 0x00, 0x00]"
  have "length (x @ rest) = 5" unfolding e by simp
  then have l: "length x \<le> 5" by simp
  have h: "hd x = 0x58" if "x \<noteq> []"
    using that e by (cases x) auto
  have n: "x ! 1 = 0x58" if "2 \<le> length x"
  proof -
    have "(x @ rest) ! 1 = x ! 1" using that by (simp add: nth_append)
    then show ?thesis unfolding e by simp
  qed
  show False using assms l h n by (auto simp: off_track_def)
qed

lemma concat_replicate_single: "concat (replicate n [b]) = replicate n b"
  by (induction n) simp_all

lemma off_track_replicate:
  "0 < n \<Longrightarrow> b \<noteq> 0x58 \<Longrightarrow> off_track (replicate n b)"
  "5 < n \<Longrightarrow> off_track (replicate n b)"
  by (cases n; simp add: off_track_def)+

lemma off_track_replicate_scaled:
  assumes "0 \<le> l" and "0 < a" and "0 \<le> m" and "b \<noteq> 0x58 \<or> 5 < a"
  shows "off_track (replicate (nat (a + l * m)) b)"
proof -
  have "0 \<le> l * m" using assms(1,3) by simp
  then have "a \<le> a + l * m" by simp
  then have "0 < nat (a + l * m)" "5 < a \<Longrightarrow> 5 < nat (a + l * m)"
    using assms(2) by simp_all
  then show ?thesis using assms(4) off_track_replicate [of "nat (a + l * m)" b] by blast
qed

lemma off_track_replicate_short:
  assumes "0 \<le> l" and "0 < a" and "b \<noteq> 0x58"
  shows "off_track (replicate (nat (l + a)) b)"
  using off_track_replicate_scaled [of l a 1 b] assms by (simp add: add.commute)

lemma off_track_runs:
  fixes w :: byte
  shows "off_track (replicate (nat (210 + uint w * 16)) b)"
    and "b \<noteq> 0x58 \<Longrightarrow> off_track (replicate (nat (209 + uint w * 256)) b)"
    and "b \<noteq> 0x58 \<Longrightarrow> off_track (replicate (nat (uint w + numeral k)) b)"
  using off_track_replicate_scaled [of "uint w" 210 16 b]
    off_track_replicate_scaled [of "uint w" 209 256 b]
    off_track_replicate_short [of "uint w" "numeral k" b]
  by simp_all

lemma filler_step:
  fixes u1 u2 :: byte
  assumes "rle_step [0xE0, u1, 0xC0, 0x58, 0xF0, u2] 0 6 1 [[0x20], [0x20]] = Inr (i', result')"
  shows "\<exists>x. concat result' = 0x20 # 0x20 # x \<and> off_track x"
proof -
  let ?page = "[0xE0, u1, 0xC0, 0x58, 0xF0, u2]"
  have b: "buf_at ?page (0 + 1) = Some u1" "buf_at ?page (0 + 1 + 1) = Some 0xC0"
    "buf_at ?page (0 + 1 + 2) = Some 0x58"
    by (simp_all add: buf_at_def)
  have sc: "\<exists>x. concat r = 0x20 # 0x20 # x \<and> off_track x"
    if "rle_short_copy ?page 0 6 1 [[0x20], [0x20]] (uint (u1 AND 0x0F) + most) = Inr (i'', r)"
      "1 \<le> most" for most i'' r
  proof -
    define c where "c = min (uint (u1 AND 0x0F) + most) 4"
    have "0 \<le> uint (u1 AND 0x0F)" by simp
    then have c: "1 \<le> c" "c \<le> 4" using that(2) unfolding c_def by linarith+
    then obtain m where m: "nat c = Suc m" by (cases "nat c") auto
    have "buf_slice ?page (0 + 1 + 1) (0 + 1 + 1 + c) = take (nat c) [0xC0, 0x58, 0xF0, u2]"
      using c by (simp add: buf_slice_def Let_def min_def)
    then have "buf_slice ?page (0 + 1 + 1) (0 + 1 + 1 + c) = 0xC0 # take m [0x58, 0xF0, u2]"
      by (simp add: m)
    then have "concat r = 0x20 # 0x20 # (0xC0 # take m [0x58, 0xF0, u2])"
      using that(1) by (auto simp: rle_short_copy_def Let_def to_chr_buf_def c_def)
    moreover have "off_track (0xC0 # take m [0x58, 0xF0, u2])" by (simp add: off_track_def)
    ultimately show ?thesis by blast
  qed
  have long_gen: "buf_slice ?page 3 (259 + l * 256) = [0x58, 0xF0, u2]" if "0 \<le> l" for l :: int
    using that by (simp add: buf_slice_def Let_def)
  have long: "buf_slice ?page 3 (259 + uint (u1 AND 0x0F) * 256) = [0x58, 0xF0, u2]"
    by (rule long_gen) simp
  have ot: "off_track [0x58, 0xF0, u2]" by (simp add: off_track_def)
  from assms b show ?thesis
    unfolding rle_step_def to_ord_def Let_def
    apply (simp split: if_splits add: to_chr_def to_chr_buf_def)
               apply (auto simp: long ot concat_replicate_single off_track_runs
        elim: sc [where most = 1, simplified] sc [where most = "numeral k" for k, simplified])
    done
qed


lemma rle_round_trip_any_fillers:
  fixes u1 u2 :: byte
  shows "decompress_row 0 6 7 [0xE0, u1, 0xC0, 0x58, 0xF0, u2]
           \<noteq> Inr [0x20, 0x20, 0x58, 0x58, 0x58, 0x00, 0x00]"
proof
  let ?page = "[0xE0, u1, 0xC0, 0x58, 0xF0, u2]"
  let ?r = "[[0x20], [0x20]] :: byte list list"
  assume "decompress_row 0 6 7 ?page = Inr [0x20, 0x20, 0x58, 0x58, 0x58, 0x00, 0x00]"
  then obtain chunks where
    l: "rle_loop ?page 0 6 0 0 [] = Inr chunks" and
    c: "concat chunks = [0x20, 0x20, 0x58, 0x58, 0x58, 0x00, 0x00]"
    by (auto simp: decompress_row_def Let_def split: sum.splits if_splits)
  have s0: "rle_step ?page 0 6 0 [] = Inr (1, ?r)"
    by (simp add: rle_eval)
  have "rle_loop ?page 0 6 0 0 [] = rle_loop ?page 0 6 1 1 ?r"
    by (simp add: rle_loop_record [of 0 6] s0)
  then have l1: "rle_loop ?page 0 6 1 1 ?r = Inr chunks" using l by simp
  then obtain i' r' where
    s1: "rle_step ?page 0 6 1 ?r = Inr (i', r')" and
    l2: "(if i' < 6 then rle_loop ?page 0 6 i' i' r' else Inr r') = Inr chunks"
    by (auto simp: rle_loop_record [of 1 6] split: sum.splits)
  obtain cs where cs: "chunks = r' @ cs"
  proof (cases "i' < 6")
    case True
    then show ?thesis using l2 rle_loop_appends [of ?page 0 6 i' i' r' chunks] that by auto
  next
    case False
    then show ?thesis using l2 that [of "[]"] by simp
  qed
  obtain x where x: "concat r' = 0x20 # 0x20 # x" "off_track x"
    using filler_step [OF s1] by blast
  have "x @ concat cs = [0x58, 0x58, 0x58, 0x00, 0x00]"
    using c cs x(1) by simp
  then show False using off_track_no_prefix [OF x(2)] by blast
qed


subsection \<open>Failures of the decompressor\<close>

text \<open>
  C3, as the code has it.
  (1) When the loop comes to a control byte whose high nibble is none of the twelve
  operations, \<open>decompress_row\<close> throws the unknown-control-byte error.
  (2) A buffer that \<open>decompress_row\<close> returns has exactly \<open>result_length\<close> bytes.
  (3) When the loop ends with a number of bytes other than \<open>result_length\<close>,
  \<open>decompress_row\<close> throws the unexpected-result-length error.
  Nothing else is checked: a stream that ends inside a record is not recognised as such.
\<close>

theorem decompress_row_fails_or_exact:
  "(rle_reach page offset len i result \<and> i < len \<and> buf_at page (offset + i) = Some cb
      \<and> cb AND 0xF0 \<notin> set rle_control_bytes \<longrightarrow>
      decompress_row offset len result_length page = Inl (UnknownControlByte (uint (cb AND 0xF0))))
   \<and> (decompress_row offset len result_length page = Inr row \<longrightarrow>
        int (length row) = result_length)
   \<and> (rle_loop page offset len 0 0 [] = Inr chunks
        \<and> int (length (concat chunks)) \<noteq> result_length \<longrightarrow>
        decompress_row offset len result_length page =
          Inl (UnexpectedResultLength (int (length (concat chunks))) result_length))"
proof (intro conjI impI)
  assume a: "rle_reach page offset len i result \<and> i < len \<and> buf_at page (offset + i) = Some cb
      \<and> cb AND 0xF0 \<notin> set rle_control_bytes"
  then have "rle_loop page offset len 0 0 [] = rle_loop page offset len i i result"
    using rle_reach_loop [of page offset len i result] by simp
  also have "\<dots> = Inl (UnknownControlByte (uint (cb AND 0xF0)))"
    using a by (simp add: rle_loop_record rle_step_unknown)
  finally show "decompress_row offset len result_length page
      = Inl (UnknownControlByte (uint (cb AND 0xF0)))"
    by (simp add: decompress_row_def)
next
  assume "decompress_row offset len result_length page = Inr row"
  then show "int (length row) = result_length"
    by (auto simp: decompress_row_def Let_def split: sum.splits if_splits)
next
  assume "rle_loop page offset len 0 0 [] = Inr chunks
        \<and> int (length (concat chunks)) \<noteq> result_length"
  then show "decompress_row offset len result_length page =
          Inl (UnexpectedResultLength (int (length (concat chunks))) result_length)"
    by (simp add: decompress_row_def)
qed

theorem decompress_row_fails_or_exact_witness:
  "decompress_row 0 2 2 [0xE0, 0x10] = Inl (UnknownControlByte 16)
   \<and> int (length [0x20, 0x20, 0x58, 0x58, 0x58, 0x00, 0x00 :: byte]) = 7
   \<and> decompress_row 0 1 7 [0xE0] = Inl (UnexpectedResultLength 2 7)"
proof -
  have r: "rle_reach [0xE0, 0x10] 0 2 1 [ [0x20], [0x20] ]"
    by (rule reach_step [OF reach_start]) (simp_all add: rle_eval)
  have u: "(1::int) < 2 \<and> buf_at [0xE0, 0x10] (0 + 1) = Some 0x10
      \<and> (0x10 :: byte) AND 0xF0 \<notin> set rle_control_bytes"
    by (simp add: buf_at_def rle_control_bytes_def)
  have d: "decompress_row 0 4 7 [0xE0, 0xC0, 0x58, 0xF0]
      = Inr [0x20, 0x20, 0x58, 0x58, 0x58, 0x00, 0x00]"
    by (simp add: rle_eval rle_loop.simps)
  have l: "rle_loop [0xE0] 0 1 0 0 [] = Inr [ [0x20], [0x20] ]
      \<and> int (length (concat [ [0x20], [0x20 :: byte] ])) \<noteq> 7"
    by (simp add: rle_eval rle_loop.simps)
  show ?thesis
    using decompress_row_fails_or_exact [of "[0xE0, 0x10]" 0 2 1 "[ [0x20], [0x20] ]" "0x10" 2]
      decompress_row_fails_or_exact [of "[0xE0, 0xC0, 0x58, 0xF0]" 0 4 _ _ _ 7
         "[0x20, 0x20, 0x58, 0x58, 0x58, 0x00, 0x00]"]
      decompress_row_fails_or_exact [of "[0xE0]" 0 1 _ _ _ 7 _ "[ [0x20], [0x20] ]"]
      r u d l
    by simp
qed

text \<open>
  Streams that end inside a record, against C3. The short copy 0x83 announces four bytes and
  two are left, the repeat 0xC0 has no operand: both are decompressed without an error when
  \<open>result_length\<close> is the number of bytes that came out. The long repeat 0x40 without its
  count byte at the end of the page fails, but with a TypeError.
\<close>

theorem rle_truncated_stream_counterexample:
  "decompress_row 0 3 2 [0x83, 0x41, 0x42] = Inr [0x41, 0x42]
   \<and> decompress_row 0 1 3 [0xC0] = Inr [0x00, 0x00, 0x00]
   \<and> decompress_row 0 1 18 [0x40] = Inl TypeError"
  by (simp add: rle_eval rle_loop.simps)

section \<open>Properties of the primitive decoder\<close>

lemma struct_unpack_d:
  "struct_unpack ts ''>d'' buf = read_double True buf"
  "struct_unpack ts ''<d'' buf = read_double False buf"
  by (simp_all add: struct_unpack_def)

lemma read_val_numeric:
  assumes "fmt \<in> set numeric_formats"
  shows "read_val ts opts st fmt raw sz =
     (case read_double (endianess st = Some ''big'')
             (buf_slice (fst (pad_numeric (endianess st) raw sz)) 0
                        (snd (pad_numeric (endianess st) raw sz))) of
        Inl e \<Rightarrow> Inl e
      | Inr val \<Rightarrow> finish_val opts fmt val)"
proof -
  have ne: "fmt \<noteq> ''i''" "fmt \<noteq> ''s''"
    using assms by (auto simp: numeric_formats_def)
  show ?thesis
    unfolding read_val_def Let_def
    using assms ne
    by (cases "endianess st = Some ''big''")
       (simp_all add: struct_unpack_d split_beta split: sum.splits)
qed

lemma buf_slice_all: "buf_slice xs 0 (int (length xs)) = xs"
  by (cases xs) (simp_all add: buf_slice_def Let_def)

lemma pad_numeric_short:
  assumes "length raw < 8"
  shows "pad_numeric endian raw sz =
     (if endian = Some ''little'' then replicate (8 - length raw) 0x00 @ raw
      else raw @ replicate (8 - length raw) 0x00, 8)"
proof -
  have "nat (8 - int (length raw)) = 8 - length raw" by simp
  then show ?thesis using assms by (auto simp: pad_numeric_def Let_def)
qed

lemma pad_numeric_eight:
  assumes "length raw = 8"
  shows "pad_numeric endian raw sz = (raw, 8)"
  using assms by (simp add: pad_numeric_def Let_def)

lemma read_val_numeric_eight:
  assumes "fmt \<in> set numeric_formats" and "length raw = 8"
  shows "read_val ts opts st fmt raw sz =
     (case read_double (endianess st = Some ''big'') raw of
        Inl e \<Rightarrow> Inl e
      | Inr val \<Rightarrow> finish_val opts fmt val)"
  using buf_slice_all [of raw] assms(2)
  by (simp add: read_val_numeric [OF assms(1)] pad_numeric_eight [OF assms(2)])

lemma read_val_numeric_short:
  assumes "fmt \<in> set numeric_formats" and "length raw < 8"
  shows "read_val ts opts st fmt raw sz =
     read_val ts opts st fmt
       (if endianess st = Some ''little'' then replicate (8 - length raw) 0x00 @ raw
        else raw @ replicate (8 - length raw) 0x00) 8"
proof -
  let ?p = "if endianess st = Some ''little'' then replicate (8 - length raw) 0x00 @ raw
        else raw @ replicate (8 - length raw) 0x00"
  have l: "length ?p = 8" using assms(2) by simp
  have "read_val ts opts st fmt raw sz =
     (case read_double (endianess st = Some ''big'') (buf_slice ?p 0 8) of
        Inl e \<Rightarrow> Inl e
      | Inr val \<Rightarrow> finish_val opts fmt val)"
    by (simp add: read_val_numeric [OF assms(1)] pad_numeric_short [OF assms(2)])
  also have "buf_slice ?p 0 8 = ?p"
    using buf_slice_all [of ?p] l by simp
  finally show ?thesis
    by (simp add: read_val_numeric_eight [OF assms(1) l])
qed

lemmas read_val_eval =
  read_val_def pad_numeric_def struct_unpack_def read_double_def read_int_def uint_le_def
  uint_be_def to_signed_def double_of_bits_def finish_val_def Number_isNaN_def buf_slice_def
  numeric_formats_def

lemma column_fmt_numeric: "column_fmt opts col \<in> set numeric_formats"
  by (simp add: column_fmt_def numeric_formats_def Let_def)

subsection \<open>Short numeric fields\<close>

text \<open>
  C4, as the code has it. A numeric field (format \<open>number\<close>, \<open>datetime\<close>, \<open>date\<close> or
  \<open>time\<close>) of fewer than 8 bytes is decoded as the 8-byte field made of it and of zero
  bytes: the zero bytes come first (on the left) when the file is little-endian, and last
  (on the right) otherwise, that is when it is big-endian.
\<close>

theorem short_numeric_padding:
  assumes "fmt \<in> set numeric_formats" and "length raw_bytes < 8"
  shows "(endianess st = Some ''little'' \<longrightarrow>
            read_val ts opts st fmt raw_bytes sz =
            read_val ts opts st fmt (replicate (8 - length raw_bytes) 0x00 @ raw_bytes) 8)
       \<and> (endianess st \<noteq> Some ''little'' \<longrightarrow>
            read_val ts opts st fmt raw_bytes sz =
            read_val ts opts st fmt (raw_bytes @ replicate (8 - length raw_bytes) 0x00) 8)"
  using read_val_numeric_short [OF assms, of ts opts st sz] by simp

theorem short_numeric_padding_witness:
  "read_val bytes_to_string (options_with_row_format ''array'') (sample_reader 256 None)
       ''number'' [0x00, 0x00, 0xF0, 0x3F] 4 = Inr (JNum (Fin 1))
   \<and> read_val bytes_to_string (options_with_row_format ''array'')
       ((sample_reader 256 None)\<lparr>endianess := Some ''big''\<rparr>)
       ''number'' [0x3F, 0xF0] 2 = Inr (JNum (Fin 1))"
proof -
  have f: "''number'' \<in> set numeric_formats" by (simp add: numeric_formats_def)
  have l: "length [0x00, 0x00, 0xF0, 0x3F :: byte] < 8" "length [0x3F, 0xF0 :: byte] < 8"
    by simp_all
  have e: "endianess (sample_reader 256 None) = Some ''little''"
    "endianess ((sample_reader 256 None)\<lparr>endianess := Some ''big''\<rparr>) \<noteq> Some ''little''"
    by (simp_all add: sample_reader_def)
  show ?thesis
    using short_numeric_padding [OF f l(1), of "sample_reader 256 None" bytes_to_string
            "options_with_row_format ''array''" 4]
          short_numeric_padding [OF f l(2),
            of "(sample_reader 256 None)\<lparr>endianess := Some ''big''\<rparr>" bytes_to_string
            "options_with_row_format ''array''" 2]
          e
    by (simp add: read_val_eval sample_reader_def replicate_numeral)
qed

text \<open>
  The sides that C4 gives, right for little-endian and left for big-endian, are not the
  code's: the four bytes 00 00 F0 3F of a little-endian file and the two bytes 3F F0 of
  a big-endian file are decoded as 1.0, not as the field padded on the other side.
\<close>

theorem short_numeric_padding_counterexample:
  "read_val bytes_to_string (options_with_row_format ''array'') (sample_reader 256 None)
       ''number'' [0x00, 0x00, 0xF0, 0x3F] 4
     \<noteq> read_val bytes_to_string (options_with_row_format ''array'') (sample_reader 256 None)
       ''number'' ([0x00, 0x00, 0xF0, 0x3F] @ replicate (8 - 4) 0x00) 8
   \<and> read_val bytes_to_string (options_with_row_format ''array'')
       ((sample_reader 256 None)\<lparr>endianess := Some ''big''\<rparr>) ''number'' [0x3F, 0xF0] 2
     \<noteq> read_val bytes_to_string (options_with_row_format ''array'')
       ((sample_reader 256 None)\<lparr>endianess := Some ''big''\<rparr>) ''number''
       (replicate (8 - 2) 0x00 @ [0x3F, 0xF0]) 8"
  by (simp add: read_val_eval sample_reader_def replicate_numeral)

subsection \<open>Missing values\<close>

text \<open>
  C5. Let the 8 bytes \<open>raw\<close> be the pattern of a NaN in the byte order of the file.
  Then \<open>_read_val\<close> returns \<open>null\<close> for them under each of the formats \<open>number\<close>,
  \<open>time\<close>, \<open>datetime\<close> and \<open>date\<close>; and the element that the row decoder pushes for
  a numeric column of length 8 whose bytes they are is \<open>null\<close>, whatever the format
  string of the column and the three sets of format strings.
\<close>

theorem nan_reads_as_null:
  assumes "length raw = 8"
    and "double_of_bits ((if endianess st = Some ''big'' then uint_be else uint_le) raw) = NaN"
  shows "(fmt \<in> set numeric_formats \<longrightarrow> read_val ts opts st fmt raw sz = Inr JNull)
       \<and> (nth_opt (columns st) i = Some col \<and> col_type col = ''number''
            \<and> nth_opt (column_data_lengths st) i = Some 8
            \<and> nth_opt (column_data_offsets st) i = Some off
            \<and> buf_slice source (offset + off) (offset + off + 8) = raw \<longrightarrow>
            read_column ts opts st source offset i = Inr JNull)"
proof -
  have rd: "read_double (endianess st = Some ''big'') raw = Inr (JNum NaN)"
    using assms by (simp add: read_double_def)
  have rv: "read_val ts opts st fmt raw sz = Inr JNull" if "fmt \<in> set numeric_formats" for fmt sz
    using rd by (simp add: read_val_numeric_eight [OF that assms(1)] finish_val_def
                  Number_isNaN_def) (use that in \<open>auto simp: numeric_formats_def\<close>)
  show ?thesis
    using rv [OF column_fmt_numeric] rv
    by (auto simp: read_column_def Let_def)
qed

theorem nan_reads_as_null_witness:
  "read_val bytes_to_string (options_with_row_format ''array'') (sample_reader 256 None)
       ''date'' [0x00, 0x00, 0x00, 0x00, 0x00, 0x00, 0xF8, 0x7F] 8 = Inr JNull
   \<and> read_column bytes_to_string (options_with_row_format ''array'')
       ((sample_reader 256 None)\<lparr>columns :=
          [\<lparr>col_id = 0, col_name = Some [0x78], col_label = [], col_format = ''DATETIME'',
            col_type = ''number'', col_length = Some 8\<rparr>]\<rparr>)
       ([0xFF, 0xFF] @ [0x00, 0x00, 0x00, 0x00, 0x00, 0x00, 0xF8, 0x7F]) 2 0 = Inr JNull"
proof -
  let ?raw = "[0x00, 0x00, 0x00, 0x00, 0x00, 0x00, 0xF8, 0x7F] :: buffer"
  let ?col = "\<lparr>col_id = 0, col_name = Some [0x78], col_label = [], col_format = ''DATETIME'',
            col_type = ''number'', col_length = Some 8\<rparr>"
  let ?st = "(sample_reader 256 None)\<lparr>columns := [?col]\<rparr>"
  have l: "length ?raw = 8" by simp
  have n1: "double_of_bits ((if endianess (sample_reader 256 None) = Some ''big''
              then uint_be else uint_le) ?raw) = NaN"
    by (simp add: sample_reader_def uint_le_def double_of_bits_def)
  have n2: "double_of_bits ((if endianess ?st = Some ''big''
              then uint_be else uint_le) ?raw) = NaN"
    by (simp add: sample_reader_def uint_le_def double_of_bits_def)
  have f: "''date'' \<in> set numeric_formats" by (simp add: numeric_formats_def)
  have c: "nth_opt (columns ?st) 0 = Some ?col \<and> col_type ?col = ''number''
      \<and> nth_opt (column_data_lengths ?st) 0 = Some 8
      \<and> nth_opt (column_data_offsets ?st) 0 = Some 0
      \<and> buf_slice ([0xFF, 0xFF] @ ?raw) (2 + 0) (2 + 0 + 8) = ?raw"
    by (simp add: sample_reader_def nth_opt_def buf_slice_def)
  show ?thesis
    using nan_reads_as_null [OF l n1, of "''date''" bytes_to_string
            "options_with_row_format ''array''" 8]
          nan_reads_as_null [OF l n2, of _ _ _ _ 0 ?col 0 "[0xFF, 0xFF] @ ?raw" 2]
          f c
    by simp
qed

subsection \<open>Date columns\<close>






section \<open>Properties of the row stream\<close>



lemma format_row_is_data_row: "format_row opts st = Inr l \<Longrightarrow> is_data_row l"
  by (auto simp: format_row_def split: if_splits option.splits)

lemma readline_cases:
  assumes "readline parse_header read_next_page ts opts st = Inr (st', l)"
  shows "(\<not> skip_header opts \<and> row_format opts = ''array'' \<and> (\<exists>names. l = Names names))
       \<or> l = EndOfStream
       \<or> format_row opts st' = Inr l"
  using assms unfolding readline_def
  by (auto split: sum.splits option.splits if_splits)







lemma readlines_no_names:
  assumes "row_format opts \<noteq> ''array''"
  shows "readlines parse_header read_next_page ts opts n st = Inr (st', ls) \<Longrightarrow>
     Names names \<notin> set ls"
proof (induction n arbitrary: st st' ls)
  case 0
  then show ?case by simp
next
  case (Suc n)
  from Suc.prems obtain st1 l ls' where
    r: "readline parse_header read_next_page ts opts st = Inr (st1, l)" and
    rs: "readlines parse_header read_next_page ts opts n st1 = Inr (st', ls')" and
    ls: "ls = l # ls'"
    by (auto split: sum.splits prod.splits)
  have "l \<noteq> Names names"
    using readline_cases [OF r] assms format_row_is_data_row [of opts st1 l] by auto
  then show ?case using Suc.IH [OF rs] ls by simp
qed


lemma readline_row:
  assumes "parsed_header st" and "decode_names ts opts st = Inr st1"
    and "skip_header opts \<or> sent_header st1 \<or> row_format opts \<noteq> ''array''"
    and "cached_page st1 = Some page"
    and "current_row_in_file_index st1 < row_count (properties st1)"
  shows "readline parse_header read_next_page ts opts st =
     (case read_row read_next_page ts opts
             (st1\<lparr>current_row_in_file_index := current_row_in_file_index st1 + 1\<rparr>) page of
        Inl e \<Rightarrow> Inl e
      | Inr st' \<Rightarrow>
         (case format_row opts st' of
            Inl e \<Rightarrow> Inl e
          | Inr l \<Rightarrow> Inr (st', l)))"
  using assms by (auto simp: readline_def)


lemma rdc_process_throws:
  assumes "compression (properties st) = Some RDC_COMPRESSION"
    and "len < row_length (properties st)"
  shows "process_byte_array_with_data ts opts st page offset len = Inl NotImplementedError"
  using assms
  by (simp add: process_byte_array_with_data_def RDC_COMPRESSION_def RLE_COMPRESSION_def)

subsection \<open>Rows of a mix page\<close>




subsection \<open>The format of a row\<close>




subsection \<open>The header row\<close>

text \<open>
  C9. When the \<open>rowFormat\<close> of a reader is not \<open>array\<close>, none of the values that any
  number of successive calls of \<open>readline\<close> return is the header row, also when
  \<open>skipHeader\<close> is false.
\<close>

theorem header_row_only_for_array:
  assumes "row_format opts \<noteq> ''array''"
    and "readlines parse_header read_next_page ts opts n st = Inr (st', ls)"
  shows "\<forall>l \<in> set ls. \<forall>names. l \<noteq> Names names"
  using readlines_no_names [OF assms] by blast

theorem header_row_only_for_array_witness:
  "skip_header (options_with_row_format ''object'') = False
   \<and> map_sum id snd (readlines Inr Inr bytes_to_string (options_with_row_format ''object'') 3
         (sample_reader 256 None))
     = Inr [RowObject [(''x'', JNum (Fin 1))], RowObject [(''x'', JNum (Fin 2))], EndOfStream]"
proof -
  let ?opts = "options_with_row_format ''object''"
  let ?st' = "(sample_reader 256 None)\<lparr>sas_file := None,
       column_names_strings_decoded := Some [''x''],
       current_row_in_file_index := 2, current_row := [JNum (Fin 2)],
       current_row_on_page_index := 0\<rparr>"
  have o: "row_format ?opts \<noteq> ''array''" "skip_header ?opts = False"
    by (simp_all add: options_with_row_format_def new_options_def)
  have r: "readlines Inr Inr bytes_to_string ?opts 3 (sample_reader 256 None)
      = Inr (?st', [RowObject [(''x'', JNum (Fin 1))], RowObject [(''x'', JNum (Fin 2))],
                    EndOfStream])"
    by code_simp
  show ?thesis
    using header_row_only_for_array [OF o(1) r] o(2) r by simp
qed

subsection \<open>Ross Data Compression\<close>

text \<open>
  C10. In a file whose compression literal is \<open>SASYZCR2\<close>, decoding a row whose length
  on the page is less than \<open>row_length\<close> throws the NotImplementedError of the
  constructor of \<open>RDCDecompressor\<close>; and so does \<open>readline\<close> when the current row
  is such a row, which is one that a data subheader pointer of a meta page gives.
\<close>

theorem rdc_rows_throw:
  "(compression (properties st) = Some RDC_COMPRESSION \<and> len < row_length (properties st) \<longrightarrow>
      process_byte_array_with_data ts opts st page offset len = Inl NotImplementedError)
   \<and> (parsed_header st \<and> decode_names ts opts st = Inr st1
        \<and> (skip_header opts \<or> sent_header st1 \<or> row_format opts \<noteq> ''array'')
        \<and> cached_page st1 = Some page
        \<and> current_row_in_file_index st1 < row_count (properties st1)
        \<and> compression (properties st1) = Some RDC_COMPRESSION
        \<and> current_page_type st1 = Some PAGE_META_TYPE
        \<and> 0 \<le> current_row_on_page_index st1
        \<and> current_row_on_page_index st1 < int (length (current_page_data_subheader_pointers st1))
        \<and> sp_length (current_page_data_subheader_pointers st1
                      ! nat (current_row_on_page_index st1)) < row_length (properties st1) \<longrightarrow>
        readline parse_header read_next_page ts opts st = Inl NotImplementedError)"
proof (intro conjI impI)
  assume "compression (properties st) = Some RDC_COMPRESSION \<and> len < row_length (properties st)"
  then show "process_byte_array_with_data ts opts st page offset len = Inl NotImplementedError"
    by (simp add: rdc_process_throws)
next
  assume a: "parsed_header st \<and> decode_names ts opts st = Inr st1
        \<and> (skip_header opts \<or> sent_header st1 \<or> row_format opts \<noteq> ''array'')
        \<and> cached_page st1 = Some page
        \<and> current_row_in_file_index st1 < row_count (properties st1)
        \<and> compression (properties st1) = Some RDC_COMPRESSION
        \<and> current_page_type st1 = Some PAGE_META_TYPE
        \<and> 0 \<le> current_row_on_page_index st1
        \<and> current_row_on_page_index st1 < int (length (current_page_data_subheader_pointers st1))
        \<and> sp_length (current_page_data_subheader_pointers st1
                      ! nat (current_row_on_page_index st1)) < row_length (properties st1)"
  let ?st2 = "st1\<lparr>current_row_in_file_index := current_row_in_file_index st1 + 1\<rparr>"
  let ?st3 = "?st2\<lparr>current_row_on_page_index := current_row_on_page_index ?st2 + 1\<rparr>"
  let ?ptr = "current_page_data_subheader_pointers st1 ! nat (current_row_on_page_index st1)"
  have "process_byte_array_with_data ts opts ?st3 page (sp_offset ?ptr) (sp_length ?ptr)
      = Inl NotImplementedError"
    using a by (intro rdc_process_throws) simp_all
  then have "read_row read_next_page ts opts ?st2 page = Inl NotImplementedError"
    using a by (simp add: read_row_def Let_def)
  moreover have "readline parse_header read_next_page ts opts st =
     (case read_row read_next_page ts opts ?st2 page of
        Inl e \<Rightarrow> Inl e
      | Inr st' \<Rightarrow>
         (case format_row opts st' of
            Inl e \<Rightarrow> Inl e
          | Inr l \<Rightarrow> Inr (st', l)))"
    using a by (intro readline_row) simp_all
  ultimately show "readline parse_header read_next_page ts opts st = Inl NotImplementedError"
    by simp
qed

theorem rdc_rows_throw_witness:
  "process_byte_array_with_data bytes_to_string (options_with_row_format ''object'')
       (sample_reader 0 (Some ''SASYZCR2'')) sample_page 56 4 = Inl NotImplementedError
   \<and> readline Inr Inr bytes_to_string (options_with_row_format ''object'')
       (sample_reader 0 (Some ''SASYZCR2'')) = Inl NotImplementedError"
proof -
  let ?st = "sample_reader 0 (Some ''SASYZCR2'')"
  let ?opts = "options_with_row_format ''object''"
  let ?st1 = "?st\<lparr>column_names_strings_decoded := Some [''x'']\<rparr>"
  have d: "decode_names bytes_to_string ?opts ?st = Inr ?st1"
    by code_simp
  have h1: "compression (properties ?st) = Some RDC_COMPRESSION \<and> 4 < row_length (properties ?st)"
    by (simp add: sample_reader_def RDC_COMPRESSION_def)
  have h2: "parsed_header ?st"
    "skip_header ?opts \<or> sent_header ?st1 \<or> row_format ?opts \<noteq> ''array''"
    "cached_page ?st1 = Some sample_page"
    "current_row_in_file_index ?st1 < row_count (properties ?st1)"
    "compression (properties ?st1) = Some RDC_COMPRESSION"
    "current_page_type ?st1 = Some PAGE_META_TYPE"
    "0 \<le> current_row_on_page_index ?st1"
    "current_row_on_page_index ?st1 < int (length (current_page_data_subheader_pointers ?st1))"
    "sp_length (current_page_data_subheader_pointers ?st1
                      ! nat (current_row_on_page_index ?st1)) < row_length (properties ?st1)"
    by (simp_all add: sample_reader_def options_with_row_format_def new_options_def
          RDC_COMPRESSION_def PAGE_META_TYPE_def)
  show ?thesis
    using rdc_rows_throw [of ?st 4 bytes_to_string ?opts sample_page 56 ?st1 Inr Inr] h1 d h2
    by simp
qed


end
